theory Spec2Isabelle
  imports Main "HOL-Library.AList"
begin

section \<open>Property store over filesystem extended attributes\<close>

text \<open>
  A model of \<open>txdav/base/propertystore/xattr.py\<close>: the class \<open>PropertyStore\<close>, which
  keeps WebDAV dead properties in the extended attributes of a file, behind an
  in-memory overlay (\<open>modified\<close>, \<open>removed\<close>) that \<open>flush\<close> writes out.
  Python byte strings are \<open>string\<close>; every exception the code can raise is a value
  of \<open>exn\<close>, and a function that can raise returns \<open>exn + 'a\<close>.
\<close>

subsection \<open>Data\<close>

type_synonym bytes = string

datatype PropertyName = PropertyName (namespace: string) (name: string)

text \<open>An effective key is the pair \<open>(key, uid)\<close>; the uid is \<open>None\<close> or a string.\<close>

type_synonym effectiveKey = "PropertyName \<times> string option"

datatype exn =
    KeyError
  | IOError int
  | PropertyStoreError
  | ValueError
  | ZlibError
  | UnpicklingError
  | AssertionError
  | TypeError

datatype platform = Darwin | Linux2 | OtherPlatform

definition ENOENT :: int where "ENOENT = 2"
definition ENODATA :: int where "ENODATA = 61"

text \<open>
  \<open>_ERRNO_NO_ATTR\<close>. The module tests \<open>sys.platform is "darwin"\<close>, the identity of
  two string objects and not their equality. The interpreter's platform string and
  the literal of the module are different objects, so the test is false on every
  platform and the constant is \<open>errno.ENODATA\<close>.
\<close>

definition ERRNO_NO_ATTR :: int where
  "ERRNO_NO_ATTR = ENODATA"

text \<open>
  The errno of the system call for an attribute that is not there, as the module's
  comment gives it: \<open>ENODATA\<close> on Linux, \<open>ENOATTR\<close> (93) on OS X.
\<close>

definition absent_errno :: "platform \<Rightarrow> int" where
  "absent_errno p = (if p = Darwin then 93 else ENODATA)"

definition deadPropertyXattrPrefix :: "platform \<Rightarrow> string" where
  "deadPropertyXattrPrefix p = (if p = Linux2 then ''user.'' else ''WebDAV:'')"

definition namespaceCompress_items :: "(string \<times> string) list" where
  "namespaceCompress_items =
    [(''urn:ietf:params:xml:ns:caldav'', ''CALDAV:''),
     (''urn:ietf:params:xml:ns:carddav'', ''CARDDAV:''),
     (''http://calendarserver.org/ns/'', ''CS:''),
     (''http://cal.me.com/_namespace/'', ''ME:''),
     (''http://twistedmatrix.com/xml_namespace/dav/'', ''TD:''),
     (''http://twistedmatrix.com/xml_namespace/dav/private/'', ''TDP:'')]"

definition namespaceCompress :: "string \<rightharpoonup> string" where
  "namespaceCompress = map_of namespaceCompress_items"

text \<open>
  \<open>_namespaceExpand = dict([(v, k) for k, v in _namespaceCompress.iteritems()])\<close>:
  in a dict built from pairs a later pair overrides an earlier one with the same key,
  hence the \<open>rev\<close> (the aliases are distinct, so the order does not show).
\<close>

definition namespaceExpand :: "string \<rightharpoonup> string" where
  "namespaceExpand = map_of (rev (map (\<lambda>(k, v). (v, k)) namespaceCompress_items))"

subsection \<open>\<open>urllib.quote\<close> and \<open>urllib.unquote\<close> on byte strings\<close>

definition always_safe :: string where
  "always_safe = ''ABCDEFGHIJKLMNOPQRSTUVWXYZabcdefghijklmnopqrstuvwxyz0123456789_.-''"

definition hexdigits :: string where
  "hexdigits = ''0123456789ABCDEF''"

text \<open>One byte of \<open>quote\<close>: itself when safe, else \<open>'%%%02X' % ord(c)\<close>.\<close>

definition quoter :: "string \<Rightarrow> char \<Rightarrow> string" where
  "quoter safe c =
     (if c \<in> set (always_safe @ safe) then [c]
      else [CHR ''%'', hexdigits ! ((of_char c :: nat) div 16), hexdigits ! ((of_char c :: nat) mod 16)])"

definition quote :: "string \<Rightarrow> string \<Rightarrow> string" where
  "quote s safe = concat (map (quoter safe) s)"

text \<open>The value of a hex digit of \<open>_hexdig = '0123456789ABCDEFabcdef'\<close>.\<close>

definition hexval :: "char \<Rightarrow> nat option" where
  "hexval c = map_of (zip ''0123456789ABCDEFabcdef''
                 [0, 1, 2, 3, 4, 5, 6, 7, 8, 9, 10, 11, 12, 13, 14, 15, 10, 11, 12, 13, 14, 15]) c"

text \<open>
  \<open>unquote\<close> splits at \<open>%\<close> and replaces the first two characters of each later piece
  by the byte they spell when they are two hex digits; otherwise the \<open>%\<close> stays.
  A piece holds no \<open>%\<close>, so this is a left-to-right scan: at a \<open>%\<close> followed by
  two hex digits emit the byte and skip them, else emit the \<open>%\<close>.
\<close>

fun unquote :: "string \<Rightarrow> string" where
  "unquote [] = []"
| "unquote (c # cs) =
     (if c = CHR ''%'' then
        (case cs of
           a # b # rest \<Rightarrow>
             (case (hexval a, hexval b) of
                (Some x, Some y) \<Rightarrow> char_of (x * 16 + y) # unquote rest
              | _ \<Rightarrow> c # unquote cs)
         | _ \<Rightarrow> c # unquote cs)
      else c # unquote cs)"

subsection \<open>Key codec\<close>

text \<open>\<open>str.find\<close> of a character: its first index, or \<open>-1\<close>.\<close>

fun find_from :: "char \<Rightarrow> string \<Rightarrow> int \<Rightarrow> int" where
  "find_from c [] i = -1"
| "find_from c (x # xs) i = (if x = c then i else find_from c xs (i + 1))"

definition find :: "string \<Rightarrow> char \<Rightarrow> int" where
  "find s c = find_from c s 0"

text \<open>The slice \<open>s[i:j]\<close> for indices that are not negative.\<close>

definition slice :: "string \<Rightarrow> int \<Rightarrow> int \<Rightarrow> string" where
  "slice s i j = take (nat j - nat i) (drop (nat i) s)"

definition encodeKey :: "platform \<Rightarrow> effectiveKey \<Rightarrow> bool \<Rightarrow> string" where
  "encodeKey p effective compressNamespace =
     (let qname = fst effective; uid = snd effective;
          ns = (if compressNamespace
                then (case namespaceCompress (namespace qname) of
                        Some a \<Rightarrow> a | None \<Rightarrow> namespace qname)
                else namespace qname);
          result = quote (''{'' @ ns @ ''}'' @ name qname) ''{}:'';
          result = (case uid of
                      None \<Rightarrow> result
                    | Some u \<Rightarrow> if u \<noteq> [] then u @ result else result)
      in deadPropertyXattrPrefix p @ result)"

text \<open>
  \<open>_decodeKey\<close>. The source tests \<open>index1 is -1\<close>, which CPython answers like
  \<open>index1 == -1\<close> (small integers are shared). The prefix is cut off by length and
  never compared.
\<close>

definition decodeKey :: "platform \<Rightarrow> string \<Rightarrow> exn + effectiveKey" where
  "decodeKey p attr =
     (let nm = unquote (drop (length (deadPropertyXattrPrefix p)) attr);
          index1 = find nm CHR ''{'';
          index2 = find nm CHR ''}''
      in if index1 = -1 \<or> index2 = -1 \<or> \<not> int (length nm) > index2 then Inl ValueError
         else
           let uid = (if index1 = 0 then None else Some (slice nm 0 index1));
               propnamespace = slice nm (index1 + 1) index2;
               propnamespace = (case namespaceExpand propnamespace of
                                  Some n \<Rightarrow> n | None \<Rightarrow> propnamespace);
               propname = drop (nat (index2 + 1)) nm
           in Inr (PropertyName propnamespace propname, uid))"

subsection \<open>What the store is given\<close>

text \<open>
  The value codec (\<open>zlib\<close>, \<open>WebDAVDocument\<close>, \<open>cPickle\<close>) and \<open>validKey\<close> are
  imported by the module and taken here as parameters. Each returns the exception
  it raises as a value; the store catches only the ones its \<open>except\<close> clauses name.
\<close>

datatype 'v WebDAVDocument = WebDAVDocument (root_element: 'v)

record 'v env =
  sys_platform :: platform
  validKey :: "PropertyName \<Rightarrow> exn option"
  compress :: "bytes \<Rightarrow> bytes"
  decompress :: "bytes \<Rightarrow> exn + bytes"
  fromString :: "bytes \<Rightarrow> exn + 'v WebDAVDocument"
  unpickle :: "bytes \<Rightarrow> exn + 'v WebDAVDocument"
  toxml :: "'v \<Rightarrow> bytes"

subsection \<open>The extended attributes of the path\<close>

text \<open>
  \<open>xattr(self.path.path)\<close>: whether the file exists, its attributes in the order the
  system lists them, and the failures of the system calls (\<open>fault\<close> gives the errno
  of an operation on a name that fails for a reason other than absence).
  The system calls fail with an errno: \<open>ENOENT\<close> for an absent file, \<open>absent_errno\<close>
  for an absent attribute. The mapping protocol of the \<open>xattr\<close> package is outside
  the repository: its \<open>__getitem__\<close> and \<open>__delitem__\<close> catch the \<open>IOError\<close> of the
  system call and raise \<open>KeyError\<close>, whatever the errno; \<open>__contains__\<close> answers
  \<open>False\<close> for it; \<open>__setitem__\<close> and \<open>__iter__\<close> let the \<open>IOError\<close> through.
\<close>

datatype xop = XGet | XSet | XRemove | XList

record xattr =
  path_exists :: bool
  table :: "(string \<times> bytes) list"
  fault :: "xop \<Rightarrow> string \<Rightarrow> int option"

definition xattr_get :: "platform \<Rightarrow> xattr \<Rightarrow> string \<Rightarrow> int + bytes" where
  "xattr_get p attrs n =
     (case fault attrs XGet n of
        Some e \<Rightarrow> Inl e
      | None \<Rightarrow>
          if \<not> path_exists attrs then Inl ENOENT
          else (case map_of (table attrs) n of
                  None \<Rightarrow> Inl (absent_errno p)
                | Some d \<Rightarrow> Inr d))"

definition xattr_set :: "platform \<Rightarrow> xattr \<Rightarrow> string \<Rightarrow> bytes \<Rightarrow> int + xattr" where
  "xattr_set p attrs n d =
     (case fault attrs XSet n of
        Some e \<Rightarrow> Inl e
      | None \<Rightarrow>
          if \<not> path_exists attrs then Inl ENOENT
          else Inr (attrs\<lparr>table := AList.update n d (table attrs)\<rparr>))"

definition xattr_remove :: "platform \<Rightarrow> xattr \<Rightarrow> string \<Rightarrow> int + xattr" where
  "xattr_remove p attrs n =
     (case fault attrs XRemove n of
        Some e \<Rightarrow> Inl e
      | None \<Rightarrow>
          if \<not> path_exists attrs then Inl ENOENT
          else (case map_of (table attrs) n of
                  None \<Rightarrow> Inl (absent_errno p)
                | Some d \<Rightarrow> Inr (attrs\<lparr>table := AList.delete n (table attrs)\<rparr>)))"

definition xattr_list :: "xattr \<Rightarrow> int + string list" where
  "xattr_list attrs =
     (case fault attrs XList [] of
        Some e \<Rightarrow> Inl e
      | None \<Rightarrow>
          if \<not> path_exists attrs then Inl ENOENT
          else Inr (map fst (table attrs)))"

definition attrs_getitem :: "platform \<Rightarrow> xattr \<Rightarrow> string \<Rightarrow> exn + bytes" where
  "attrs_getitem p attrs n =
     (case xattr_get p attrs n of
        Inl e \<Rightarrow> Inl KeyError
      | Inr d \<Rightarrow> Inr d)"

definition attrs_setitem :: "platform \<Rightarrow> xattr \<Rightarrow> string \<Rightarrow> bytes \<Rightarrow> exn + xattr" where
  "attrs_setitem p attrs n d =
     (case xattr_set p attrs n d of
        Inl e \<Rightarrow> Inl (IOError e)
      | Inr attrs' \<Rightarrow> Inr attrs')"

definition attrs_delitem :: "platform \<Rightarrow> xattr \<Rightarrow> string \<Rightarrow> exn + xattr" where
  "attrs_delitem p attrs n =
     (case xattr_remove p attrs n of
        Inl e \<Rightarrow> Inl KeyError
      | Inr attrs' \<Rightarrow> Inr attrs')"

definition attrs_contains :: "platform \<Rightarrow> xattr \<Rightarrow> string \<Rightarrow> bool" where
  "attrs_contains p attrs n =
     (case xattr_get p attrs n of Inl e \<Rightarrow> False | Inr d \<Rightarrow> True)"

definition attrs_iter :: "xattr \<Rightarrow> exn + string list" where
  "attrs_iter attrs =
     (case xattr_list attrs of
        Inl e \<Rightarrow> Inl (IOError e)
      | Inr ns \<Rightarrow> Inr ns)"

subsection \<open>The store\<close>

text \<open>
  \<open>removed\<close> is a Python set and \<open>modified\<close> a dict; both are lists here, in the
  order the loops of \<open>flush\<close> and \<open>_keys_uid\<close> visit them.
\<close>

record 'v PropertyStore =
  removed :: "effectiveKey list"
  modified :: "(effectiveKey \<times> 'v) list"

definition init :: "'v PropertyStore" where
  "init = \<lparr>removed = [], modified = []\<rparr>"

definition set_add :: "'a \<Rightarrow> 'a list \<Rightarrow> 'a list" where
  "set_add k ks = (if k \<in> set ks then ks else ks @ [k])"

definition setitem_uid ::
  "'v env \<Rightarrow> PropertyName \<Rightarrow> 'v \<Rightarrow> string option \<Rightarrow> 'v PropertyStore
     \<Rightarrow> (exn + unit) \<times> 'v PropertyStore" where
  "setitem_uid env key val uid self =
     (case validKey env key of
        Some e \<Rightarrow> (Inl e, self)
      | None \<Rightarrow>
          let effectiveKey = (key, uid);
              self = (if effectiveKey \<in> set (removed self)
                      then self\<lparr>removed := removeAll effectiveKey (removed self)\<rparr>
                      else self)
          in (Inr (), self\<lparr>modified := AList.update effectiveKey val (modified self)\<rparr>))"

text \<open>
  Lines 155 to 181 of \<open>_getitem_uid\<close>: the read under the compressed name, and on
  \<open>KeyError\<close> the read under the full namespace with the write-back.
\<close>

definition read_attr ::
  "platform \<Rightarrow> effectiveKey \<Rightarrow> xattr \<Rightarrow> (exn + bytes) \<times> xattr" where
  "read_attr p effectiveKey attrs =
     (let first =
            (case attrs_getitem p attrs (encodeKey p effectiveKey True) of
               Inr d \<Rightarrow> Inr d
             | Inl (IOError e) \<Rightarrow>
                 if e = ERRNO_NO_ATTR \<or> e = ENOENT then Inl KeyError
                 else Inl PropertyStoreError
             | Inl x \<Rightarrow> Inl x)
      in case first of
           Inr d \<Rightarrow> (Inr d, attrs)
         | Inl x \<Rightarrow>
             if x \<noteq> KeyError then (Inl x, attrs)
             else if namespace (fst effectiveKey) \<in> dom namespaceCompress then
               (case attrs_getitem p attrs (encodeKey p effectiveKey False) of
                  Inl (IOError e) \<Rightarrow> (Inl KeyError, attrs)
                | Inl y \<Rightarrow> (Inl y, attrs)
                | Inr d \<Rightarrow>
                    (case attrs_setitem p attrs (encodeKey p effectiveKey True) d of
                       Inl (IOError e) \<Rightarrow> (Inl PropertyStoreError, attrs)
                     | Inl y \<Rightarrow> (Inl y, attrs)
                     | Inr attrs1 \<Rightarrow>
                         (case attrs_delitem p attrs1 (encodeKey p effectiveKey False) of
                            Inl (IOError e) \<Rightarrow> (Inl PropertyStoreError, attrs1)
                          | Inl y \<Rightarrow> (Inl y, attrs1)
                          | Inr attrs2 \<Rightarrow> (Inr d, attrs2))))
             else (Inl KeyError, attrs))"

text \<open>
  Lines 195 to 214: the document and the \<open>legacy\<close> flag. \<open>unpickle\<close> is given the
  decompressed bytes when decompression succeeded, the raw ones otherwise.
\<close>

definition unserialize :: "'v env \<Rightarrow> bytes \<Rightarrow> exn + ('v WebDAVDocument \<times> bool)" where
  "unserialize env data =
     (case (case decompress env data of
              Inr d \<Rightarrow> Inr (d, False)
            | Inl x \<Rightarrow> if x = ZlibError then Inr (data, True) else Inl x) of
        Inl x \<Rightarrow> Inl x
      | Inr (data, legacy) \<Rightarrow>
          (case fromString env data of
             Inr doc \<Rightarrow> Inr (doc, legacy)
           | Inl x \<Rightarrow>
               if x \<noteq> ValueError then Inl x
               else (case unpickle env data of
                       Inr doc \<Rightarrow> Inr (doc, True)
                     | Inl y \<Rightarrow>
                         if y = UnpicklingError then Inl PropertyStoreError else Inl y)))"

definition getitem_uid ::
  "'v env \<Rightarrow> PropertyName \<Rightarrow> string option \<Rightarrow> 'v PropertyStore \<times> xattr
     \<Rightarrow> (exn + 'v) \<times> 'v PropertyStore \<times> xattr" where
  "getitem_uid env key uid st =
     (let self = fst st; attrs = snd st in
      case validKey env key of
        Some e \<Rightarrow> (Inl e, st)
      | None \<Rightarrow>
          let effectiveKey = (key, uid) in
          case map_of (modified self) effectiveKey of
            Some v \<Rightarrow> (Inr v, st)
          | None \<Rightarrow>
              if effectiveKey \<in> set (removed self) then (Inl KeyError, st)
              else
                (case read_attr (sys_platform env) effectiveKey attrs of
                   (Inl x, attrs') \<Rightarrow> (Inl x, (self, attrs'))
                 | (Inr data, attrs') \<Rightarrow>
                     (case unserialize env data of
                        Inl x \<Rightarrow> (Inl x, (self, attrs'))
                      | Inr (doc, legacy) \<Rightarrow>
                          if legacy then
                            (case setitem_uid env key (root_element doc) uid self of
                               (Inl x, self') \<Rightarrow> (Inl x, (self', attrs'))
                             | (Inr u, self') \<Rightarrow> (Inr (root_element doc), (self', attrs')))
                          else (Inr (root_element doc), (self, attrs')))))"

definition delitem_uid ::
  "'v env \<Rightarrow> PropertyName \<Rightarrow> string option \<Rightarrow> 'v PropertyStore \<times> xattr
     \<Rightarrow> (exn + unit) \<times> 'v PropertyStore \<times> xattr" where
  "delitem_uid env key uid st =
     (let self = fst st; attrs = snd st in
      case validKey env key of
        Some e \<Rightarrow> (Inl e, st)
      | None \<Rightarrow>
          let effectiveKey = (key, uid) in
          if map_of (modified self) effectiveKey \<noteq> None then
            (Inr (), (self\<lparr>modified := AList.delete effectiveKey (modified self),
                           removed := set_add effectiveKey (removed self)\<rparr>, attrs))
          else if \<not> attrs_contains (sys_platform env) attrs
                      (encodeKey (sys_platform env) effectiveKey True)
          then (Inl KeyError, st)
          else (Inr (), (self\<lparr>removed := set_add effectiveKey (removed self)\<rparr>, attrs)))"

text \<open>
  \<open>_keys_uid\<close> is a generator: the model returns what it yields, in order, and
  the exception that ends it, if one does.
\<close>

fun keys_durable ::
  "platform \<Rightarrow> string option \<Rightarrow> effectiveKey list \<Rightarrow> string list \<Rightarrow> effectiveKey list
     \<Rightarrow> PropertyName list \<times> effectiveKey list \<times> exn option" where
  "keys_durable p uid rem [] seen = ([], seen, None)"
| "keys_durable p uid rem (key # keys) seen =
     (case decodeKey p key of
        Inl x \<Rightarrow> ([], seen, Some x)
      | Inr effectivekey \<Rightarrow>
          if snd effectivekey = uid \<and> effectivekey \<notin> set rem then
            (case keys_durable p uid rem keys (set_add effectivekey seen) of
               (ys, seen', x) \<Rightarrow> (fst effectivekey # ys, seen', x))
          else keys_durable p uid rem keys seen)"

definition keys_modified ::
  "string option \<Rightarrow> effectiveKey list \<Rightarrow> effectiveKey list \<Rightarrow> PropertyName list" where
  "keys_modified uid seen ks =
     map fst (filter (\<lambda>effectivekey. snd effectivekey = uid \<and> effectivekey \<notin> set seen) ks)"

definition keys_uid ::
  "'v env \<Rightarrow> string option \<Rightarrow> 'v PropertyStore \<times> xattr
     \<Rightarrow> PropertyName list \<times> exn option" where
  "keys_uid env uid st =
     (let self = fst st; attrs = snd st;
          iterattr = (case attrs_iter attrs of
                        Inr ns \<Rightarrow> Inr ns
                      | Inl (IOError e) \<Rightarrow> if e \<noteq> ENOENT then Inl (IOError e) else Inr []
                      | Inl x \<Rightarrow> Inl x)
      in case iterattr of
           Inl x \<Rightarrow> ([], Some x)
         | Inr ns \<Rightarrow>
             (case keys_durable (sys_platform env) uid (removed self) ns [] of
                (ys, seen, Some x) \<Rightarrow> (ys, Some x)
              | (ys, seen, None) \<Rightarrow>
                  (ys @ keys_modified uid seen (map fst (modified self)), None)))"

text \<open>The two loops of \<open>flush\<close>; each stops at the first exception it does not catch.\<close>

fun flush_removed ::
  "platform \<Rightarrow> effectiveKey list \<Rightarrow> (effectiveKey \<times> 'v) list \<Rightarrow> xattr
     \<Rightarrow> exn option \<times> xattr" where
  "flush_removed p [] mods attrs = (None, attrs)"
| "flush_removed p (key # keys) mods attrs =
     (if map_of mods key \<noteq> None then (Some AssertionError, attrs)
      else
        (case attrs_delitem p attrs (encodeKey p key True) of
           Inr attrs' \<Rightarrow> flush_removed p keys mods attrs'
         | Inl KeyError \<Rightarrow> flush_removed p keys mods attrs
         | Inl (IOError e) \<Rightarrow>
             if e \<noteq> ERRNO_NO_ATTR then (Some (IOError e), attrs)
             else flush_removed p keys mods attrs
         | Inl x \<Rightarrow> (Some x, attrs)))"

fun flush_modified ::
  "'v env \<Rightarrow> (effectiveKey \<times> 'v) list \<Rightarrow> effectiveKey list \<Rightarrow> xattr
     \<Rightarrow> exn option \<times> xattr" where
  "flush_modified env [] rem attrs = (None, attrs)"
| "flush_modified env ((key, val) # items) rem attrs =
     (if key \<in> set rem then (Some AssertionError, attrs)
      else
        (case attrs_setitem (sys_platform env) attrs
                (encodeKey (sys_platform env) key True) (compress env (toxml env val)) of
           Inl x \<Rightarrow> (Some x, attrs)
         | Inr attrs' \<Rightarrow> flush_modified env items rem attrs'))"

definition flush ::
  "'v env \<Rightarrow> 'v PropertyStore \<times> xattr \<Rightarrow> (exn + unit) \<times> 'v PropertyStore \<times> xattr" where
  "flush env st =
     (let self = fst st; attrs = snd st in
      if \<not> path_exists attrs then (Inr (), st)
      else
        (case flush_removed (sys_platform env) (removed self) (modified self) attrs of
           (Some x, attrs1) \<Rightarrow> (Inl x, (self, attrs1))
         | (None, attrs1) \<Rightarrow>
             (case flush_modified env (modified self) (removed self) attrs1 of
                (Some x, attrs2) \<Rightarrow> (Inl x, (self, attrs2))
              | (None, attrs2) \<Rightarrow> (Inr (), (self\<lparr>removed := [], modified := []\<rparr>, attrs2)))))"

definition abort :: "'v PropertyStore \<Rightarrow> 'v PropertyStore" where
  "abort self = self\<lparr>removed := [], modified := []\<rparr>"

subsection \<open>Sequences of operations\<close>

datatype 'v operation =
    Get PropertyName "string option"
  | Set PropertyName 'v "string option"
  | Delete PropertyName "string option"
  | Flush
  | Abort

fun step :: "'v env \<Rightarrow> 'v PropertyStore \<times> xattr \<Rightarrow> 'v operation \<Rightarrow> 'v PropertyStore \<times> xattr" where
  "step env st (Get key uid) = snd (getitem_uid env key uid st)"
| "step env st (Set key val uid) = (snd (setitem_uid env key val uid (fst st)), snd st)"
| "step env st (Delete key uid) = snd (delitem_uid env key uid st)"
| "step env st Flush = snd (flush env st)"
| "step env st Abort = (abort (fst st), snd st)"

definition run :: "'v env \<Rightarrow> 'v operation list \<Rightarrow> 'v PropertyStore \<times> xattr \<Rightarrow> 'v PropertyStore \<times> xattr" where
  "run env ops st = foldl (step env) st ops"

text \<open>The invariant of the overlay: no effective key is both modified and removed.\<close>

definition disjoint :: "'v PropertyStore \<Rightarrow> bool" where
  "disjoint self = (set (removed self) \<inter> fst ` set (modified self) = {})"

subsection \<open>A small codec for the examples\<close>

text \<open>
  Values are strings and \<open>toxml\<close> is the identity; a document starts with \<open><\<close>,
  compressed bytes with \<open>Z\<close>, a pickle with \<open>P\<close>. Every name is a valid key.
\<close>

definition example_env :: "string env" where
  "example_env =
     \<lparr>sys_platform = Darwin,
      validKey = (\<lambda>key. None),
      compress = (\<lambda>b. CHR ''Z'' # b),
      decompress = (\<lambda>b. case b of [] \<Rightarrow> Inl ZlibError
                          | c # r \<Rightarrow> if c = CHR ''Z'' then Inr r else Inl ZlibError),
      fromString = (\<lambda>b. case b of [] \<Rightarrow> Inl ValueError
                          | c # r \<Rightarrow> if c = CHR ''<'' then Inr (WebDAVDocument b) else Inl ValueError),
      unpickle = (\<lambda>b. case b of [] \<Rightarrow> Inl UnpicklingError
                        | c # r \<Rightarrow> if c = CHR ''P'' then Inr (WebDAVDocument r) else Inl UnpicklingError),
      toxml = (\<lambda>v. v)\<rparr>"

definition example_attrs :: "(string \<times> bytes) list \<Rightarrow> xattr" where
  "example_attrs t =
     \<lparr>path_exists = True, table = t, fault = (\<lambda>operation n. None)\<rparr>"

section \<open>Properties\<close>

subsection \<open>Percent-encoding\<close>

lemma hexval_hexdigits: "n < 16 \<Longrightarrow> hexval (hexdigits ! n) = Some n"
proof -
  assume "n < 16"
  then have "n \<in> set [0..<16]" by simp
  moreover have "\<forall>k \<in> set [0..<16]. hexval (hexdigits ! k) = Some k"
    by code_simp
  ultimately show ?thesis by blast
qed

lemma unquote_quoter:
  assumes "CHR ''%'' \<notin> set (always_safe @ safe)"
  shows "unquote (quoter safe c @ r) = c # unquote r"
proof (cases "c \<in> set (always_safe @ safe)")
  case True
  with assms have "c \<noteq> CHR ''%''" by auto
  with True show ?thesis by (simp add: quoter_def)
next
  case False
  have lt: "(of_char c :: nat) < 256"
    by (metis of_char_mod_256 mod_less_divisor zero_less_numeral)
  then have d: "(of_char c :: nat) div 16 < 16" by arith
  have m: "(of_char c :: nat) mod 16 < 16" by simp
  have "char_of (((of_char c :: nat) div 16) * 16 + (of_char c :: nat) mod 16) = c"
    by simp
  with False show ?thesis
    by (simp add: quoter_def hexval_hexdigits [OF d] hexval_hexdigits [OF m] del: set_append)
qed

lemma unquote_quote:
  "CHR ''%'' \<notin> set (always_safe @ safe) \<Longrightarrow> unquote (quote s safe) = s"
  by (induction s) (simp_all add: quote_def unquote_quoter del: set_append)

lemma percent_not_safe: "CHR ''%'' \<notin> set (always_safe @ ''{}:'')"
  by (simp add: always_safe_def)

lemma quote_inject: "quote s ''{}:'' = quote t ''{}:'' \<Longrightarrow> s = t"
  by (metis unquote_quote [OF percent_not_safe])

subsection \<open>\<open>str.find\<close>\<close>

lemma find_from_first: "c \<notin> set xs \<Longrightarrow> find_from c (xs @ c # ys) i = i + int (length xs)"
  by (induction xs arbitrary: i) auto

lemma find_from_none: "c \<notin> set xs \<Longrightarrow> find_from c xs i = -1"
  by (induction xs arbitrary: i) auto

lemma find_from_range:
  "c \<in> set xs \<Longrightarrow> i \<le> find_from c xs i \<and> find_from c xs i < i + int (length xs)"
proof (induction xs arbitrary: i)
  case Nil
  then show ?case by simp
next
  case (Cons x xs)
  show ?case
  proof (cases "x = c")
    case True
    then show ?thesis by simp
  next
    case False
    with Cons.prems have "c \<in> set xs" by simp
    from Cons.IH [OF this, of "i + 1"] False show ?thesis by simp
  qed
qed

subsection \<open>The alias table\<close>

lemma namespaceCompress_cases:
  "namespaceCompress ns = Some a \<Longrightarrow> (ns, a) \<in> set namespaceCompress_items"
  by (simp add: namespaceCompress_def map_of_SomeD)

lemma alias_roundtrip:
  "namespaceCompress ns = Some a \<Longrightarrow> namespaceExpand a = Some ns \<and> CHR ''}'' \<notin> set a \<and> a \<noteq> ns"
  by (drule namespaceCompress_cases) (auto simp: namespaceCompress_items_def namespaceExpand_def)

text \<open>
  Claim C3. For a namespace of the alias table and any local name, decoding the
  attribute name that \<open>_encodeKey\<close> builds for \<open>((ns, name), None)\<close> gives back
  \<open>((ns, name), None)\<close>: the alias is expanded to the full namespace and the local name
  is unchanged.
\<close>

theorem decode_encode_alias:
  assumes "ns \<in> dom namespaceCompress"
  shows "decodeKey p (encodeKey p (PropertyName ns nm, None) True) = Inr (PropertyName ns nm, None)"
proof -
  from assms obtain a where a: "namespaceCompress ns = Some a" by auto
  then have ex: "namespaceExpand a = Some ns" and nb: "CHR ''}'' \<notin> set a"
    using alias_roundtrip by auto
  let ?body = "CHR ''{'' # a @ CHR ''}'' # nm"
  have enc: "encodeKey p (PropertyName ns nm, None) True
               = deadPropertyXattrPrefix p @ quote ?body ''{}:''"
    using a by (simp add: encodeKey_def)
  have unq: "unquote (drop (length (deadPropertyXattrPrefix p))
               (deadPropertyXattrPrefix p @ quote ?body ''{}:'')) = ?body"
    using unquote_quote [OF percent_not_safe] by simp
  have i1: "find ?body CHR ''{'' = 0" by (simp add: find_def)
  have "find_from CHR ''}'' (a @ CHR ''}'' # nm) 1 = 1 + int (length a)"
    using nb by (rule find_from_first)
  then have i2: "find ?body CHR ''}'' = 1 + int (length a)" by (simp add: find_def)
  have n2: "nat (2 + int (length a)) = Suc (Suc (length a))" by simp
  show ?thesis
    unfolding enc decodeKey_def unq
    by (simp add: i1 i2 Let_def slice_def ex n2)
qed

theorem decode_encode_alias_witness:
  "''http://calendarserver.org/ns/'' \<in> dom namespaceCompress
   \<and> decodeKey Linux2 (encodeKey Linux2
        (PropertyName ''http://calendarserver.org/ns/'' ''getctag {1}'', None) True)
     = Inr (PropertyName ''http://calendarserver.org/ns/'' ''getctag {1}'', None)"
proof -
  have h: "''http://calendarserver.org/ns/'' \<in> dom namespaceCompress"
    by (simp add: namespaceCompress_def namespaceCompress_items_def)
  show ?thesis
    using h decode_encode_alias [OF h, of Linux2 "''getctag {1}''"] by simp
qed

text \<open>
  Claim C8, as amended. \<open>_decodeKey\<close> drops as many characters as the prefix is long
  and percent-decodes the rest. It raises \<open>ValueError\<close> whenever that text holds no
  \<open>{\<close> or no \<open>}\<close>, and it succeeds whenever the text holds both and at least one
  character follows the first \<open>}\<close>. The prefix is not compared.
\<close>

theorem decodeKey_failure:
  assumes "nm = unquote (drop (length (deadPropertyXattrPrefix p)) attr)"
  shows "(CHR ''{'' \<notin> set nm \<or> CHR ''}'' \<notin> set nm \<longrightarrow> decodeKey p attr = Inl ValueError)
       \<and> (CHR ''{'' \<in> set nm \<and> CHR ''}'' \<in> set nm \<and> drop (nat (find nm CHR ''}'' + 1)) nm \<noteq> []
            \<longrightarrow> (\<exists>k. decodeKey p attr = Inr k))"
proof (intro conjI impI)
  assume "CHR ''{'' \<notin> set nm \<or> CHR ''}'' \<notin> set nm"
  then have "find nm CHR ''{'' = -1 \<or> find nm CHR ''}'' = -1"
    by (auto simp: find_def find_from_none)
  then show "decodeKey p attr = Inl ValueError"
    using assms by (auto simp: decodeKey_def Let_def)
next
  assume a: "CHR ''{'' \<in> set nm \<and> CHR ''}'' \<in> set nm \<and> drop (nat (find nm CHR ''}'' + 1)) nm \<noteq> []"
  from a find_from_range [of "CHR ''{''" nm 0] have i1: "find nm CHR ''{'' \<noteq> -1"
    by (simp add: find_def)
  from a find_from_range [of "CHR ''}''" nm 0]
  have i2: "find nm CHR ''}'' \<noteq> -1" "find nm CHR ''}'' < int (length nm)"
    by (simp_all add: find_def)
  show "\<exists>k. decodeKey p attr = Inr k"
    using assms [symmetric] i1 i2 by (simp add: decodeKey_def Let_def)
qed

theorem decodeKey_failure_witness:
  "CHR ''{'' \<in> set ''u{CS:}n'' \<and> CHR ''}'' \<in> set ''u{CS:}n''
     \<and> drop (nat (find ''u{CS:}n'' CHR ''}'' + 1)) ''u{CS:}n'' \<noteq> []
     \<and> (\<exists>k. decodeKey Linux2 ''user.u%7BCS:}n'' = Inr k)
     \<and> CHR ''}'' \<notin> set ''u{CS:n''
     \<and> decodeKey Linux2 ''user.u%7BCS:n'' = Inl ValueError"
proof -
  have a: "''u{CS:}n'' = unquote (drop (length (deadPropertyXattrPrefix Linux2)) ''user.u%7BCS:}n'')"
    by code_simp
  have b: "''u{CS:n'' = unquote (drop (length (deadPropertyXattrPrefix Linux2)) ''user.u%7BCS:n'')"
    by code_simp
  have c: "drop (nat (find ''u{CS:}n'' CHR ''}'' + 1)) ''u{CS:}n'' \<noteq> []"
    by (simp add: find_def)
  show ?thesis
    using decodeKey_failure [OF a] decodeKey_failure [OF b] c by simp
qed

text \<open>
  The claim as stated fails: an attribute name that does not start with the store
  prefix decodes without error.
\<close>

theorem decodeKey_ignores_prefix:
  "take (length (deadPropertyXattrPrefix Darwin)) ''1234567{a}b'' \<noteq> deadPropertyXattrPrefix Darwin
   \<and> decodeKey Darwin ''1234567{a}b'' = Inr (PropertyName ''a'' ''b'', None)"
  by (simp add: decodeKey_def deadPropertyXattrPrefix_def find_def slice_def
        namespaceExpand_def namespaceCompress_items_def)

subsection \<open>The overlay\<close>

lemma dom_delete_eq: "fst ` set (AList.delete k al) = fst ` set al - {k}"
proof -
  have "set (map fst (AList.delete k al)) = set (map fst al) - {k}"
    by (simp add: delete_keys)
  then show ?thesis by simp
qed

lemma setitem_disjoint: "disjoint self \<Longrightarrow> disjoint (snd (setitem_uid env key val uid self))"
  by (auto simp: disjoint_def setitem_uid_def Let_def dom_update split: option.splits)

lemma setitem_disjoint':
  "disjoint self \<Longrightarrow> setitem_uid env key val uid self = (r, self') \<Longrightarrow> disjoint self'"
  using setitem_disjoint [of self env key val uid] by simp

lemma delitem_disjoint: "disjoint (fst st) \<Longrightarrow> disjoint (fst (snd (delitem_uid env key uid st)))"
  by (auto simp: disjoint_def delitem_uid_def Let_def set_add_def dom_delete_eq
        map_of_eq_None_iff split: option.splits)

lemma getitem_disjoint: "disjoint (fst st) \<Longrightarrow> disjoint (fst (snd (getitem_uid env key uid st)))"
  by (auto simp: getitem_uid_def Let_def split: option.splits prod.splits sum.splits
        dest: setitem_disjoint')

lemma flush_disjoint: "disjoint (fst st) \<Longrightarrow> disjoint (fst (snd (flush env st)))"
  by (auto simp: flush_def Let_def disjoint_def split: option.splits prod.splits)

lemma abort_disjoint: "disjoint (abort self)"
  by (simp add: abort_def disjoint_def)

lemma step_disjoint: "disjoint (fst st) \<Longrightarrow> disjoint (fst (step env st operation))"
  by (cases operation)
     (simp_all add: setitem_disjoint delitem_disjoint getitem_disjoint flush_disjoint abort_disjoint)

lemma run_disjoint: "disjoint (fst st) \<Longrightarrow> disjoint (fst (run env ops st))"
  unfolding run_def by (induction ops arbitrary: st) (simp_all add: step_disjoint)

text \<open>
  Claim C2. Whatever sequence of \<open>get\<close>, \<open>set\<close>, \<open>delete\<close>, \<open>flush\<close> and \<open>abort\<close> a
  new store runs, over any attributes and with any failures of the system calls,
  no effective key is in \<open>modified\<close> and in \<open>removed\<close> at once.
\<close>

theorem overlay_disjoint: "disjoint (fst (run env ops (init, attrs)))"
  by (rule run_disjoint) (simp add: init_def disjoint_def)

text \<open>
  Claim C10. When the target does not exist, \<open>flush\<close> returns normally and leaves
  the overlay and the attributes as they were; the overlay is emptied by a flush
  that ran both loops to the end, and by no other.
\<close>

theorem flush_missing_target:
  "(\<not> path_exists attrs \<longrightarrow> flush env (self, attrs) = (Inr (), (self, attrs)))
   \<and> (fst (flush env (self, attrs)) = Inr () \<and> path_exists attrs
        \<longrightarrow> fst (snd (flush env (self, attrs))) = init)
   \<and> (fst (flush env (self, attrs)) \<noteq> Inr () \<or> \<not> path_exists attrs
        \<longrightarrow> fst (snd (flush env (self, attrs))) = self)"
  by (auto simp: flush_def init_def split: prod.splits option.splits)

theorem flush_missing_target_witness:
  "\<not> path_exists ((example_attrs [])\<lparr>path_exists := False\<rparr>)
   \<and> flush example_env
        (\<lparr>removed = [], modified = [((PropertyName ''ns1'' ''color'', None), ''<val/>'')]\<rparr>,
         (example_attrs [])\<lparr>path_exists := False\<rparr>)
     = (Inr (),
        (\<lparr>removed = [], modified = [((PropertyName ''ns1'' ''color'', None), ''<val/>'')]\<rparr>,
         (example_attrs [])\<lparr>path_exists := False\<rparr>))
   \<and> path_exists (example_attrs [])
   \<and> fst (flush example_env
        (\<lparr>removed = [], modified = [((PropertyName ''ns1'' ''color'', None), ''<val/>'')]\<rparr>,
         example_attrs [])) = Inr ()
   \<and> fst (snd (flush example_env
        (\<lparr>removed = [], modified = [((PropertyName ''ns1'' ''color'', None), ''<val/>'')]\<rparr>,
         example_attrs []))) = init"
proof -
  have a: "\<not> path_exists ((example_attrs [])\<lparr>path_exists := False\<rparr>)"
    by (simp add: example_attrs_def)
  have b: "path_exists (example_attrs [])"
    by (simp add: example_attrs_def)
  have c: "fst (flush example_env
        (\<lparr>removed = [], modified = [((PropertyName ''ns1'' ''color'', None), ''<val/>'')]\<rparr>,
         example_attrs [])) = Inr ()"
    by (simp add: flush_def example_attrs_def example_env_def attrs_setitem_def xattr_set_def)
  show ?thesis
    using a b c
      flush_missing_target [of "(example_attrs [])\<lparr>path_exists := False\<rparr>" example_env
        "\<lparr>removed = [], modified = [((PropertyName ''ns1'' ''color'', None), ''<val/>'')]\<rparr>"]
      flush_missing_target [of "example_attrs []" example_env
        "\<lparr>removed = [], modified = [((PropertyName ''ns1'' ''color'', None), ''<val/>'')]\<rparr>"]
    by simp
qed

subsection \<open>Reading an attribute\<close>

lemma encodeKey_forms_differ:
  assumes "namespace key \<in> dom namespaceCompress"
  shows "encodeKey p (key, uid) True \<noteq> encodeKey p (key, uid) False"
proof
  assume eq: "encodeKey p (key, uid) True = encodeKey p (key, uid) False"
  from assms obtain a where a: "namespaceCompress (namespace key) = Some a" by auto
  then have ne: "a \<noteq> namespace key" using alias_roundtrip by blast
  from eq a have "quote (CHR ''{'' # a @ CHR ''}'' # name key) ''{}:''
                = quote (CHR ''{'' # namespace key @ CHR ''}'' # name key) ''{}:''"
    by (cases uid) (auto simp: encodeKey_def Let_def split: if_splits)
  then have "a @ CHR ''}'' # name key = namespace key @ CHR ''}'' # name key"
    using quote_inject by blast
  with ne show False by simp
qed

text \<open>The first read finds nothing when the file has no attribute under the name.\<close>

lemma read_attr_fallback:
  assumes ns: "namespace (fst ek) \<in> dom namespaceCompress"
    and ok: "path_exists attrs" "fault attrs = (\<lambda>operation n. None)"
    and absent: "map_of (table attrs) (encodeKey p ek True) = None"
    and legacy: "map_of (table attrs) (encodeKey p ek False) = Some data"
  shows "read_attr p ek attrs =
           (Inr data,
            attrs\<lparr>table := AList.delete (encodeKey p ek False)
                       (AList.update (encodeKey p ek True) data (table attrs))\<rparr>)"
proof -
  obtain key uid where ek: "ek = (key, uid)" by (cases ek)
  from ns ek have ne: "encodeKey p ek False \<noteq> encodeKey p ek True"
    using encodeKey_forms_differ [of key p uid] by auto
  have first: "attrs_getitem p attrs (encodeKey p ek True) = Inl KeyError"
    using ok absent by (simp add: attrs_getitem_def xattr_get_def)
  have second: "attrs_getitem p attrs (encodeKey p ek False) = Inr data"
    using ok legacy by (simp add: attrs_getitem_def xattr_get_def)
  have w: "attrs_setitem p attrs (encodeKey p ek True) data
             = Inr (attrs\<lparr>table := AList.update (encodeKey p ek True) data (table attrs)\<rparr>)"
    using ok by (simp add: attrs_setitem_def xattr_set_def)
  have d: "attrs_delitem p (attrs\<lparr>table := AList.update (encodeKey p ek True) data (table attrs)\<rparr>)
              (encodeKey p ek False)
             = Inr (attrs\<lparr>table := AList.delete (encodeKey p ek False)
                       (AList.update (encodeKey p ek True) data (table attrs))\<rparr>)"
    using ok legacy ne by (simp add: attrs_delitem_def xattr_remove_def update_conv')
  show ?thesis
    using ns by (simp add: read_attr_def first second w d)
qed

lemma getitem_after_read:
  assumes "validKey env key = None"
    and "map_of (modified self) (key, uid) = None" and "(key, uid) \<notin> set (removed self)"
    and "read_attr (sys_platform env) (key, uid) attrs = (Inr data, attrs')"
    and "unserialize env data = Inr (doc, legacy)"
  shows "getitem_uid env key uid (self, attrs) =
           (Inr (root_element doc),
            (if legacy then snd (setitem_uid env key (root_element doc) uid self) else self, attrs'))"
  using assms by (simp add: getitem_uid_def setitem_uid_def Let_def)

text \<open>
  Claim C9. A key that is not staged and is stored only under the attribute name
  with the full namespace, the namespace being in the alias table: \<open>delete\<close> raises
  \<open>KeyError\<close> and changes nothing, since it looks for the compressed name only,
  while \<open>get\<close> on the same store returns the value.
\<close>

theorem delete_probes_compressed_only:
  assumes "validKey env key = None"
    and "map_of (modified self) (key, uid) = None" and "(key, uid) \<notin> set (removed self)"
    and "namespace key \<in> dom namespaceCompress"
    and "path_exists attrs" and "fault attrs = (\<lambda>operation n. None)"
    and "map_of (table attrs) (encodeKey (sys_platform env) (key, uid) True) = None"
    and "map_of (table attrs) (encodeKey (sys_platform env) (key, uid) False) = Some data"
    and "unserialize env data = Inr (doc, legacy)"
  shows "delitem_uid env key uid (self, attrs) = (Inl KeyError, (self, attrs))
       \<and> fst (getitem_uid env key uid (self, attrs)) = Inr (root_element doc)"
proof
  show "delitem_uid env key uid (self, attrs) = (Inl KeyError, (self, attrs))"
    using assms by (simp add: delitem_uid_def attrs_contains_def xattr_get_def)
next
  have "read_attr (sys_platform env) (key, uid) attrs =
           (Inr data,
            attrs\<lparr>table := AList.delete (encodeKey (sys_platform env) (key, uid) False)
                       (AList.update (encodeKey (sys_platform env) (key, uid) True) data (table attrs))\<rparr>)"
    using assms by (intro read_attr_fallback) simp_all
  from getitem_after_read [OF assms(1-3) this assms(9)]
  show "fst (getitem_uid env key uid (self, attrs)) = Inr (root_element doc)" by simp
qed

theorem delete_probes_compressed_only_witness:
  "validKey example_env (PropertyName ''urn:ietf:params:xml:ns:caldav'' ''x'') = None
   \<and> map_of (modified (init :: string PropertyStore))
        (PropertyName ''urn:ietf:params:xml:ns:caldav'' ''x'', None) = None
   \<and> (PropertyName ''urn:ietf:params:xml:ns:caldav'' ''x'', None)
        \<notin> set (removed (init :: string PropertyStore))
   \<and> ''urn:ietf:params:xml:ns:caldav'' \<in> dom namespaceCompress
   \<and> path_exists (example_attrs [(''WebDAV:{urn:ietf:params:xml:ns:caldav}x'', ''<old/>'')])
   \<and> map_of [(''WebDAV:{urn:ietf:params:xml:ns:caldav}x'', ''<old/>'')]
        (encodeKey Darwin (PropertyName ''urn:ietf:params:xml:ns:caldav'' ''x'', None) True) = None
   \<and> map_of [(''WebDAV:{urn:ietf:params:xml:ns:caldav}x'', ''<old/>'')]
        (encodeKey Darwin (PropertyName ''urn:ietf:params:xml:ns:caldav'' ''x'', None) False)
        = Some ''<old/>''
   \<and> unserialize example_env ''<old/>'' = Inr (WebDAVDocument ''<old/>'', True)
   \<and> delitem_uid example_env (PropertyName ''urn:ietf:params:xml:ns:caldav'' ''x'') None
        (init, example_attrs [(''WebDAV:{urn:ietf:params:xml:ns:caldav}x'', ''<old/>'')])
      = (Inl KeyError, (init, example_attrs [(''WebDAV:{urn:ietf:params:xml:ns:caldav}x'', ''<old/>'')]))
   \<and> fst (getitem_uid example_env (PropertyName ''urn:ietf:params:xml:ns:caldav'' ''x'') None
        (init, example_attrs [(''WebDAV:{urn:ietf:params:xml:ns:caldav}x'', ''<old/>'')]))
      = Inr ''<old/>''"
proof -
  let ?key = "PropertyName ''urn:ietf:params:xml:ns:caldav'' ''x''"
  let ?attrs = "example_attrs [(''WebDAV:{urn:ietf:params:xml:ns:caldav}x'', ''<old/>'')]"
  have h1: "validKey example_env ?key = None" by (simp add: example_env_def)
  have h2: "map_of (modified (init :: string PropertyStore)) (?key, None) = None"
    by (simp add: init_def)
  have h3: "(?key, None) \<notin> set (removed (init :: string PropertyStore))"
    by (simp add: init_def)
  have h4: "namespace ?key \<in> dom namespaceCompress"
    by (simp add: namespaceCompress_def namespaceCompress_items_def)
  have h5: "path_exists ?attrs" by (simp add: example_attrs_def)
  have h6: "fault ?attrs = (\<lambda>operation n. None)" by (simp add: example_attrs_def)
  have p: "sys_platform example_env = Darwin" by (simp add: example_env_def)
  have e1: "encodeKey Darwin (?key, None) True = ''WebDAV:{CALDAV:}x''" by code_simp
  have e2: "encodeKey Darwin (?key, None) False = ''WebDAV:{urn:ietf:params:xml:ns:caldav}x''"
    by code_simp
  have h7: "map_of (table ?attrs) (encodeKey (sys_platform example_env) (?key, None) True) = None"
    by (simp add: p e1 example_attrs_def)
  have h8: "map_of (table ?attrs) (encodeKey (sys_platform example_env) (?key, None) False)
              = Some ''<old/>''"
    by (simp add: p e2 example_attrs_def)
  have h9: "unserialize example_env ''<old/>'' = Inr (WebDAVDocument ''<old/>'', True)"
    by (simp add: unserialize_def example_env_def)
  show ?thesis
    using delete_probes_compressed_only [OF h1 h2 h3 h4 h5 h6 h7 h8 h9] h1 h2 h3 h4 h5 h7 h8 h9
    by (simp add: p example_attrs_def)
qed

text \<open>
  Claim C6 fails on the code. The file holds one property under the compressed and
  under the full attribute name, as it does after a \<open>set\<close> and a \<open>flush\<close> over an
  attribute written before namespaces were compressed; \<open>_keys_uid\<close> of a new store
  yields the property name twice. The first loop adds to \<open>seen\<close> and never looks
  into it.
\<close>

theorem keys_uid_yields_twice:
  "snd (run example_env [Set (PropertyName ''urn:ietf:params:xml:ns:caldav'' ''x'') ''<new/>'' None, Flush]
          (init, example_attrs [(''WebDAV:{urn:ietf:params:xml:ns:caldav}x'', ''<old/>'')]))
     = example_attrs [(''WebDAV:{urn:ietf:params:xml:ns:caldav}x'', ''<old/>''),
                      (''WebDAV:{CALDAV:}x'', ''Z<new/>'')]
   \<and> keys_uid example_env None
        (init, example_attrs [(''WebDAV:{urn:ietf:params:xml:ns:caldav}x'', ''<old/>''),
                              (''WebDAV:{CALDAV:}x'', ''Z<new/>'')])
     = ([PropertyName ''urn:ietf:params:xml:ns:caldav'' ''x'',
         PropertyName ''urn:ietf:params:xml:ns:caldav'' ''x''], None)"
proof -
  let ?key = "PropertyName ''urn:ietf:params:xml:ns:caldav'' ''x''"
  have p: "sys_platform example_env = Darwin" by (simp add: example_env_def)
  have e1: "encodeKey Darwin (?key, None) True = ''WebDAV:{CALDAV:}x''" by code_simp
  have v: "validKey example_env ?key = None" by (simp add: example_env_def)
  have c: "compress example_env (toxml example_env ''<new/>'') = ''Z<new/>''"
    by (simp add: example_env_def)
  have d1: "decodeKey Darwin ''WebDAV:{urn:ietf:params:xml:ns:caldav}x'' = Inr (?key, None)"
    by code_simp
  have d2: "decodeKey Darwin ''WebDAV:{CALDAV:}x'' = Inr (?key, None)"
    by code_simp
  have a: "snd (run example_env [Set ?key ''<new/>'' None, Flush]
          (init, example_attrs [(''WebDAV:{urn:ietf:params:xml:ns:caldav}x'', ''<old/>'')]))
     = example_attrs [(''WebDAV:{urn:ietf:params:xml:ns:caldav}x'', ''<old/>''),
                      (''WebDAV:{CALDAV:}x'', ''Z<new/>'')]"
    by (simp add: run_def setitem_uid_def flush_def init_def p v c e1 attrs_setitem_def
          xattr_set_def example_attrs_def)
  have b: "keys_uid example_env None
        (init, example_attrs [(''WebDAV:{urn:ietf:params:xml:ns:caldav}x'', ''<old/>''),
                              (''WebDAV:{CALDAV:}x'', ''Z<new/>'')])
     = ([?key, ?key], None)"
    by (simp add: keys_uid_def attrs_iter_def xattr_list_def example_attrs_def init_def p d1 d2
          set_add_def keys_modified_def)
  from a b show ?thesis by simp
qed

text \<open>
  Claim C5 fails on the code. The system call that reads the attribute fails with
  errno 13 (\<open>EACCES\<close>), an error that is not absence. \<open>get\<close> raises \<open>KeyError\<close>
  and not \<open>PropertyStoreError\<close>: for a namespace without alias, where only the
  compressed name is read, and for a namespace with an alias, where the read under
  the full name fails the same way. The \<open>IOError\<close> has become a \<open>KeyError\<close> before
  the handler that tests the errno sees it, and the handler of the second read tests
  no errno.
\<close>

theorem get_io_error_is_key_error:
  "xattr_get Darwin
     ((example_attrs [(''WebDAV:{ns1}color'', ''Z<val/>'')])
        \<lparr>fault := (\<lambda>operation n. if operation = XGet then Some 13 else None)\<rparr>)
     (encodeKey Darwin (PropertyName ''ns1'' ''color'', None) True) = Inl 13
   \<and> 13 \<noteq> ERRNO_NO_ATTR \<and> 13 \<noteq> ENOENT \<and> 13 \<noteq> absent_errno Darwin
   \<and> fst (getitem_uid example_env (PropertyName ''ns1'' ''color'') None
        (init, (example_attrs [(''WebDAV:{ns1}color'', ''Z<val/>'')])
           \<lparr>fault := (\<lambda>operation n. if operation = XGet then Some 13 else None)\<rparr>))
      = Inl KeyError
   \<and> xattr_get Darwin
     ((example_attrs [(''WebDAV:{urn:ietf:params:xml:ns:caldav}x'', ''Z<val/>'')])
        \<lparr>fault := (\<lambda>operation n. if operation = XGet then Some 13 else None)\<rparr>)
     (encodeKey Darwin (PropertyName ''urn:ietf:params:xml:ns:caldav'' ''x'', None) False) = Inl 13
   \<and> fst (getitem_uid example_env (PropertyName ''urn:ietf:params:xml:ns:caldav'' ''x'') None
        (init, (example_attrs [(''WebDAV:{urn:ietf:params:xml:ns:caldav}x'', ''Z<val/>'')])
           \<lparr>fault := (\<lambda>operation n. if operation = XGet then Some 13 else None)\<rparr>))
      = Inl KeyError"
proof -
  let ?plain = "PropertyName ''ns1'' ''color''"
  let ?dav = "PropertyName ''urn:ietf:params:xml:ns:caldav'' ''x''"
  have p: "sys_platform example_env = Darwin" by (simp add: example_env_def)
  have v: "validKey example_env ?plain = None" "validKey example_env ?dav = None"
    by (simp_all add: example_env_def)
  have e1: "encodeKey Darwin (?plain, None) True = ''WebDAV:{ns1}color''" by code_simp
  have e2: "encodeKey Darwin (?dav, None) True = ''WebDAV:{CALDAV:}x''" by code_simp
  have e3: "encodeKey Darwin (?dav, None) False = ''WebDAV:{urn:ietf:params:xml:ns:caldav}x''"
    by code_simp
  have n1: "''ns1'' \<notin> dom namespaceCompress"
    by (simp add: namespaceCompress_def namespaceCompress_items_def dom_def)
  have n2: "''urn:ietf:params:xml:ns:caldav'' \<in> dom namespaceCompress"
    by (simp add: namespaceCompress_def namespaceCompress_items_def)
  have c: "13 \<noteq> ERRNO_NO_ATTR \<and> 13 \<noteq> ENOENT \<and> 13 \<noteq> absent_errno Darwin"
    by (simp add: ERRNO_NO_ATTR_def ENODATA_def ENOENT_def absent_errno_def)
  show ?thesis
    using n1 n2 c
    by (simp add: getitem_uid_def read_attr_def attrs_getitem_def xattr_get_def init_def p v
          e1 e2 e3 example_attrs_def)
qed

subsection \<open>The loops of \<open>flush\<close>\<close>

lemma map_of_fold_delete:
  "map_of (fold (\<lambda>k. AList.delete (f k)) ks t) n = (if n \<in> f ` set ks then None else map_of t n)"
  by (induction ks arbitrary: t) (auto simp: delete_conv')

lemma map_of_fold_update_other:
  "n \<notin> f ` fst ` set items \<Longrightarrow>
   map_of (fold (\<lambda>(k, v). AList.update (f k) (g v)) items t) n = map_of t n"
  by (induction items arbitrary: t) (auto simp: update_conv')

lemma map_of_fold_update_same:
  "\<forall>(k, v) \<in> set items. f k = n \<longrightarrow> g v = d \<Longrightarrow>
   map_of t n = Some d \<or> (\<exists>(k, v) \<in> set items. f k = n) \<Longrightarrow>
   map_of (fold (\<lambda>(k, v). AList.update (f k) (g v)) items t) n = Some d"
proof (induction items arbitrary: t)
  case Nil
  then show ?case by simp
next
  case (Cons item items)
  obtain k v where item: "item = (k, v)" by (cases item)
  have all: "\<forall>(k, v) \<in> set items. f k = n \<longrightarrow> g v = d"
    using Cons.prems(1) by simp
  have "map_of (AList.update (f k) (g v) t) n = Some d \<or> (\<exists>(k, v) \<in> set items. f k = n)"
    using Cons.prems item by (auto simp: update_conv')
  from Cons.IH [OF all this] show ?case by (simp add: item)
qed

lemma flush_removed_ok:
  assumes "path_exists attrs" and "fault attrs = (\<lambda>operation n. None)"
    and "\<forall>k \<in> set ks. map_of mods k = None"
  shows "flush_removed p ks mods attrs =
           (None, attrs\<lparr>table := fold (\<lambda>k. AList.delete (encodeKey p k True)) ks (table attrs)\<rparr>)"
  using assms
proof (induction ks arbitrary: attrs)
  case Nil
  then show ?case by simp
next
  case (Cons k ks)
  let ?n = "encodeKey p k True"
  let ?attrs' = "attrs\<lparr>table := AList.delete ?n (table attrs)\<rparr>"
  have ih: "flush_removed p ks mods ?attrs' =
           (None, ?attrs'\<lparr>table := fold (\<lambda>k. AList.delete (encodeKey p k True)) ks (table ?attrs')\<rparr>)"
    using Cons.prems by (intro Cons.IH) simp_all
  show ?case
  proof (cases "map_of (table attrs) ?n")
    case None
    then have "?n \<notin> fst ` set (table attrs)" by (simp add: map_of_eq_None_iff)
    then have del: "AList.delete ?n (table attrs) = table attrs" by simp
    have ih0: "flush_removed p ks mods attrs =
           (None, attrs\<lparr>table := fold (\<lambda>k. AList.delete (encodeKey p k True)) ks (table attrs)\<rparr>)"
      using ih by (simp add: del)
    have "attrs_delitem p attrs ?n = Inl KeyError"
      using Cons.prems None by (simp add: attrs_delitem_def xattr_remove_def)
    then have "flush_removed p (k # ks) mods attrs = flush_removed p ks mods attrs"
      using Cons.prems by simp
    with ih0 show ?thesis by (simp add: del)
  next
    case (Some d)
    then have "attrs_delitem p attrs ?n = Inr ?attrs'"
      using Cons.prems by (simp add: attrs_delitem_def xattr_remove_def)
    then have "flush_removed p (k # ks) mods attrs = flush_removed p ks mods ?attrs'"
      using Cons.prems by simp
    with ih show ?thesis by simp
  qed
qed

lemma flush_modified_ok:
  assumes "path_exists attrs" and "fault attrs = (\<lambda>operation n. None)"
    and "\<forall>k \<in> fst ` set items. k \<notin> set rem"
  shows "flush_modified env items rem attrs =
           (None, attrs\<lparr>table := fold (\<lambda>(k, v). AList.update (encodeKey (sys_platform env) k True)
                                            (compress env (toxml env v))) items (table attrs)\<rparr>)"
  using assms
proof (induction items arbitrary: attrs)
  case Nil
  then show ?case by simp
next
  case (Cons item items)
  obtain k v where item: "item = (k, v)" by (cases item)
  let ?attrs' = "attrs\<lparr>table := AList.update (encodeKey (sys_platform env) k True)
                                   (compress env (toxml env v)) (table attrs)\<rparr>"
  have w: "attrs_setitem (sys_platform env) attrs (encodeKey (sys_platform env) k True)
             (compress env (toxml env v)) = Inr ?attrs'"
    using Cons.prems by (simp add: attrs_setitem_def xattr_set_def)
  have "flush_modified env items rem ?attrs' =
           (None, ?attrs'\<lparr>table := fold (\<lambda>(k, v). AList.update (encodeKey (sys_platform env) k True)
                                            (compress env (toxml env v))) items (table ?attrs')\<rparr>)"
    using Cons.prems by (intro Cons.IH) simp_all
  then show ?case using Cons.prems w by (simp add: item)
qed

text \<open>What a flush without failures leaves in the file.\<close>

lemma flush_ok:
  assumes "path_exists attrs" and "fault attrs = (\<lambda>operation n. None)" and "disjoint self"
  shows "flush env (self, attrs) =
           (Inr (), (init,
              attrs\<lparr>table :=
                fold (\<lambda>(k, v). AList.update (encodeKey (sys_platform env) k True)
                                   (compress env (toxml env v))) (modified self)
                  (fold (\<lambda>k. AList.delete (encodeKey (sys_platform env) k True)) (removed self)
                     (table attrs))\<rparr>))"
proof -
  let ?p = "sys_platform env"
  let ?attrs1 = "attrs\<lparr>table := fold (\<lambda>k. AList.delete (encodeKey ?p k True)) (removed self) (table attrs)\<rparr>"
  from assms(3) have d1: "\<forall>k \<in> set (removed self). map_of (modified self) k = None"
    by (auto simp: disjoint_def map_of_eq_None_iff)
  from assms(3) have d2: "\<forall>k \<in> fst ` set (modified self). k \<notin> set (removed self)"
    by (auto simp: disjoint_def)
  have r: "flush_removed ?p (removed self) (modified self) attrs = (None, ?attrs1)"
    using assms(1,2) d1 by (rule flush_removed_ok)
  have m: "flush_modified env (modified self) (removed self) ?attrs1 =
             (None, ?attrs1\<lparr>table := fold (\<lambda>(k, v). AList.update (encodeKey ?p k True)
                                            (compress env (toxml env v))) (modified self) (table ?attrs1)\<rparr>)"
    using assms(1,2) d2 by (intro flush_modified_ok) simp_all
  show ?thesis
    using assms(1) by (simp add: flush_def r m init_def)
qed

lemma setitem_result:
  "validKey env key = None \<Longrightarrow>
   setitem_uid env key val uid self =
     (Inr (), self\<lparr>removed := removeAll (key, uid) (removed self),
                   modified := AList.update (key, uid) val (modified self)\<rparr>)"
  by (simp add: setitem_uid_def Let_def)

lemma flush_after_setitem:
  assumes valid: "validKey env key = None"
    and ok: "path_exists attrs" "fault attrs = (\<lambda>operation n. None)"
    and inv: "disjoint self" "distinct (map fst (modified self))"
    and own: "\<forall>k \<in> fst ` set (modified self).
                encodeKey (sys_platform env) k True = encodeKey (sys_platform env) (key, uid) True
                \<longrightarrow> k = (key, uid)"
  obtains attrs2 where
    "flush env (snd (setitem_uid env key val uid self), attrs) = (Inr (), (init, attrs2))"
    "map_of (table attrs2) (encodeKey (sys_platform env) (key, uid) True)
       = Some (compress env (toxml env val))"
    "path_exists attrs2" "fault attrs2 = (\<lambda>operation n. None)"
proof -
  let ?p = "sys_platform env"
  let ?ek = "(key, uid)"
  let ?self1 = "snd (setitem_uid env key val uid self)"
  let ?m1 = "AList.update ?ek val (modified self)"
  let ?t1 = "fold (\<lambda>k. AList.delete (encodeKey ?p k True)) (removed ?self1) (table attrs)"
  let ?t2 = "fold (\<lambda>(k, v). AList.update (encodeKey ?p k True) (compress env (toxml env v))) ?m1 ?t1"
  have m1: "modified ?self1 = ?m1" using valid by (simp add: setitem_result)
  have d1: "disjoint ?self1" using inv(1) by (rule setitem_disjoint)
  have f: "flush env (?self1, attrs) = (Inr (), (init, attrs\<lparr>table := ?t2\<rparr>))"
    using flush_ok [OF ok d1, of env] by (simp add: m1)
  have dist: "distinct (map fst ?m1)" using inv(2) by (rule distinct_update)
  have look: "map_of ?m1 ?ek = Some val" by (simp add: update_conv')
  then have mem: "(?ek, val) \<in> set ?m1" by (rule map_of_SomeD)
  have all: "\<forall>(k, v) \<in> set ?m1. encodeKey ?p k True = encodeKey ?p ?ek True
               \<longrightarrow> compress env (toxml env v) = compress env (toxml env val)"
  proof (clarify)
    fix k v assume kv: "(k, v) \<in> set ?m1" and e: "encodeKey ?p k True = encodeKey ?p ?ek True"
    from kv have "k \<in> fst ` set ?m1" by force
    then have "k = ?ek \<or> k \<in> fst ` set (modified self)" by (simp add: dom_update)
    with own e have k: "k = ?ek" by blast
    from dist kv have "map_of ?m1 k = Some v" by simp
    with look k have "v = val" by simp
    then show "compress env (toxml env v) = compress env (toxml env val)" by simp
  qed
  have "map_of ?t1 (encodeKey ?p ?ek True) = Some (compress env (toxml env val))
          \<or> (\<exists>(k, v) \<in> set ?m1. encodeKey ?p k True = encodeKey ?p ?ek True)"
    using mem by blast
  from map_of_fold_update_same [OF all this]
  have t: "map_of ?t2 (encodeKey ?p ?ek True) = Some (compress env (toxml env val))" .
  show thesis
    by (rule that [of "attrs\<lparr>table := ?t2\<rparr>"]) (simp_all add: f t ok)
qed

lemma read_attr_present:
  "attrs_getitem p attrs (encodeKey p ek True) = Inr d \<Longrightarrow> read_attr p ek attrs = (Inr d, attrs)"
  by (simp add: read_attr_def)

lemma attrs_getitem_present:
  "path_exists attrs \<Longrightarrow> fault attrs = (\<lambda>operation n. None) \<Longrightarrow> map_of (table attrs) n = Some d \<Longrightarrow>
   attrs_getitem p attrs n = Inr d"
  by (simp add: attrs_getitem_def xattr_get_def)

text \<open>
  Claim C1. A valid name and a value that the codec round-trips are set on a store,
  the store is flushed while the path exists and no system call fails, and a new
  store over the same attributes is asked for the name: it returns the value set.
  The store may hold other staged changes, as long as none of its modified keys
  encodes to the same attribute name.
\<close>

theorem set_flush_get_roundtrip:
  assumes "validKey env key = None"
    and "decompress env (compress env (toxml env val)) = Inr (toxml env val)"
    and "fromString env (toxml env val) = Inr doc" and "root_element doc = val"
    and "path_exists attrs" and "fault attrs = (\<lambda>operation n. None)"
    and "disjoint self" and "distinct (map fst (modified self))"
    and "\<forall>k \<in> fst ` set (modified self).
            encodeKey (sys_platform env) k True = encodeKey (sys_platform env) (key, uid) True
            \<longrightarrow> k = (key, uid)"
    and "setitem_uid env key val uid self = (r1, self1)"
    and "flush env (self1, attrs) = (r2, (self2, attrs2))"
  shows "r1 = Inr () \<and> r2 = Inr ()
       \<and> getitem_uid env key uid (init, attrs2) = (Inr val, (init, attrs2))"
proof -
  from assms(10) have s1: "self1 = snd (setitem_uid env key val uid self)" by simp
  from assms(1,10) have r1: "r1 = Inr ()" by (simp add: setitem_result)
  obtain a where a: "flush env (snd (setitem_uid env key val uid self), attrs) = (Inr (), (init, a))"
    "map_of (table a) (encodeKey (sys_platform env) (key, uid) True)
       = Some (compress env (toxml env val))"
    "path_exists a" "fault a = (\<lambda>operation n. None)"
    using flush_after_setitem [OF assms(1,5,6,7,8,9)] by blast
  from a(1) assms(11) s1 have r2: "r2 = Inr ()" and a2: "attrs2 = a" by simp_all
  have "attrs_getitem (sys_platform env) a (encodeKey (sys_platform env) (key, uid) True)
          = Inr (compress env (toxml env val))"
    using a(3,4,2) by (rule attrs_getitem_present)
  then have rd: "read_attr (sys_platform env) (key, uid) a = (Inr (compress env (toxml env val)), a)"
    by (rule read_attr_present)
  have u: "unserialize env (compress env (toxml env val)) = Inr (doc, False)"
    using assms(2,3) by (simp add: unserialize_def)
  have "getitem_uid env key uid (init, a) = (Inr (root_element doc), (init, a))"
    using getitem_after_read [OF assms(1) _ _ rd u, of init] by (simp add: init_def)
  with r1 r2 a2 assms(4) show ?thesis by simp
qed


text \<open>
  Claim C7 fails on the code. A key is in \<open>removed\<close>, its attribute is in the file,
  and the system call that removes it fails with errno 13 (\<open>EACCES\<close>), an error
  that is not absence. \<open>__delitem__\<close> raises \<open>KeyError\<close> for it, \<open>except KeyError:
  pass\<close> takes it, and \<open>flush\<close> returns normally: nothing is propagated, the
  overlay is emptied and the attribute is still in the file. The handler that
  raises again for an errno other than \<open>_ERRNO_NO_ATTR\<close> is never reached.
\<close>

theorem flush_swallows_io_error:
  "xattr_remove Darwin
     ((example_attrs [(''WebDAV:{ns1}color'', ''Z<val/>'')])
        \<lparr>fault := (\<lambda>operation n. if operation = XRemove then Some 13 else None)\<rparr>)
     (encodeKey Darwin (PropertyName ''ns1'' ''color'', None) True) = Inl 13
   \<and> 13 \<noteq> ERRNO_NO_ATTR \<and> 13 \<noteq> absent_errno Darwin
   \<and> flush example_env
        (\<lparr>removed = [(PropertyName ''ns1'' ''color'', None)], modified = []\<rparr>,
         (example_attrs [(''WebDAV:{ns1}color'', ''Z<val/>'')])
           \<lparr>fault := (\<lambda>operation n. if operation = XRemove then Some 13 else None)\<rparr>)
      = (Inr (),
         (init,
          (example_attrs [(''WebDAV:{ns1}color'', ''Z<val/>'')])
            \<lparr>fault := (\<lambda>operation n. if operation = XRemove then Some 13 else None)\<rparr>))"
proof -
  have p: "sys_platform example_env = Darwin" by (simp add: example_env_def)
  have e1: "encodeKey Darwin (PropertyName ''ns1'' ''color'', None) True = ''WebDAV:{ns1}color''"
    by code_simp
  have c: "13 \<noteq> ERRNO_NO_ATTR \<and> 13 \<noteq> absent_errno Darwin"
    by (simp add: ERRNO_NO_ATTR_def ENODATA_def absent_errno_def)
  show ?thesis
    using c
    by (simp add: flush_def p e1 attrs_delitem_def xattr_remove_def example_attrs_def init_def)
qed

theorem set_flush_get_roundtrip_witness:
  "validKey example_env (PropertyName ''ns1'' ''color'') = None
   \<and> decompress example_env (compress example_env (toxml example_env ''<val>blue</val>''))
        = Inr (toxml example_env ''<val>blue</val>'')
   \<and> fromString example_env (toxml example_env ''<val>blue</val>'')
        = Inr (WebDAVDocument ''<val>blue</val>'')
   \<and> path_exists (example_attrs [])
   \<and> disjoint (init :: string PropertyStore)
   \<and> setitem_uid example_env (PropertyName ''ns1'' ''color'') ''<val>blue</val>'' None init
        = (Inr (), \<lparr>removed = [], modified = [((PropertyName ''ns1'' ''color'', None), ''<val>blue</val>'')]\<rparr>)
   \<and> flush example_env
        (\<lparr>removed = [], modified = [((PropertyName ''ns1'' ''color'', None), ''<val>blue</val>'')]\<rparr>,
         example_attrs [])
        = (Inr (), (init, example_attrs [(''WebDAV:{ns1}color'', ''Z<val>blue</val>'')]))
   \<and> getitem_uid example_env (PropertyName ''ns1'' ''color'') None
        (init, example_attrs [(''WebDAV:{ns1}color'', ''Z<val>blue</val>'')])
        = (Inr ''<val>blue</val>'', (init, example_attrs [(''WebDAV:{ns1}color'', ''Z<val>blue</val>'')]))"
proof -
  let ?key = "PropertyName ''ns1'' ''color''"
  let ?val = "''<val>blue</val>''"
  let ?self1 = "\<lparr>removed = [], modified = [((?key, None), ?val)]\<rparr>"
  let ?attrs2 = "example_attrs [(''WebDAV:{ns1}color'', ''Z<val>blue</val>'')]"
  have p: "sys_platform example_env = Darwin" by (simp add: example_env_def)
  have e1: "encodeKey Darwin (?key, None) True = ''WebDAV:{ns1}color''" by code_simp
  have h1: "validKey example_env ?key = None" by (simp add: example_env_def)
  have c: "compress example_env (toxml example_env ?val) = ''Z<val>blue</val>''"
    by (simp add: example_env_def)
  have h2: "decompress example_env (compress example_env (toxml example_env ?val))
              = Inr (toxml example_env ?val)"
    by (simp add: example_env_def)
  have h3: "fromString example_env (toxml example_env ?val) = Inr (WebDAVDocument ?val)"
    by (simp add: example_env_def)
  have h4: "root_element (WebDAVDocument ?val) = ?val" by simp
  have h5: "path_exists (example_attrs [])" by (simp add: example_attrs_def)
  have h6: "fault (example_attrs []) = (\<lambda>operation n. None)" by (simp add: example_attrs_def)
  have h7: "disjoint (init :: string PropertyStore)" by (simp add: disjoint_def init_def)
  have h8: "distinct (map fst (modified (init :: string PropertyStore)))" by (simp add: init_def)
  have h9: "\<forall>k \<in> fst ` set (modified (init :: string PropertyStore)).
              encodeKey (sys_platform example_env) k True
                = encodeKey (sys_platform example_env) (?key, None) True
              \<longrightarrow> k = (?key, None)"
    by (simp add: init_def)
  have h10: "setitem_uid example_env ?key ?val None init = (Inr (), ?self1)"
    by (simp add: setitem_uid_def h1 init_def)
  have h11: "flush example_env (?self1, example_attrs []) = (Inr (), (init, ?attrs2))"
    by (simp add: flush_def p e1 c attrs_setitem_def xattr_set_def example_attrs_def init_def)
  from set_flush_get_roundtrip [OF h1 h2 h3 h4 h5 h6 h7 h8 h9 h10 h11] h1 h2 h3 h5 h7 h10 h11
  show ?thesis by simp
qed


end
